theory Spec2Isabelle
  imports Main "HOL-Library.AList" "HOL-Library.Multiset"
begin

section \<open>JavaScript values\<close>

text \<open>
  The values the state engine stores, compares and dispatches on. Reference values carry
  their address, which is all that \<^verbatim>\<open>===\<close> looks at. A plain object also carries
  what \<^verbatim>\<open>each\<close> reads of it: whether it inherits from \<^verbatim>\<open>Object.prototype\<close> (an
  object literal does) or from nothing (\<^verbatim>\<open>Object.create(null)\<close>), and its own
  enumerable properties in insertion order. \<open>VFunction\<close> is a function of the page,
  \<open>VBuiltin n\<close> the function \<^verbatim>\<open>Object.prototype[n]\<close>, \<open>VObjectPrototype\<close> that
  prototype object itself. \<open>VNumber\<close> stands for the finite numbers (the engine only
  compares them), \<open>VNaN\<close> for the one number that differs from itself. \<open>VOther\<close> is
  any other reference value that is not callable (a Date, a RegExp, a DOM node).

  Data invariants of a mapping, assumed where a theorem needs them and named
  \<open>well_formed\<close> below: its keys are distinct, and none of them is \<^verbatim>\<open>__proto__\<close>
  (an object literal or an assignment does not create that own property;
  \<^verbatim>\<open>JSON.parse\<close> or a computed key can).
  \<^verbatim>\<open>Object.prototype\<close> is the standard one, and nothing but the methods below writes
  the store's fields.
\<close>

datatype proto = FromObject | FromNull

datatype jsval =
    VUndefined
  | VNull
  | VBoolean bool
  | VNumber int
  | VNaN
  | VString string
  | VFunction nat
  | VBuiltin string
  | VObjectPrototype
  | VArray nat
  | VOther nat
  | VObject nat proto "(string \<times> jsval) list"

type_synonym props = "(string \<times> jsval) list"

text \<open>The class name that \<^verbatim>\<open>Object.prototype.toString.call(obj)\<close> reports.\<close>

datatype tag = TUndefined | TNull | TBoolean | TNumber | TString | TFunction | TArray
  | TObject | TOther

fun class_of :: "jsval \<Rightarrow> tag" where
  "class_of VUndefined = TUndefined"
| "class_of VNull = TNull"
| "class_of (VBoolean b) = TBoolean"
| "class_of (VNumber n) = TNumber"
| "class_of VNaN = TNumber"
| "class_of (VString s) = TString"
| "class_of (VFunction a) = TFunction"
| "class_of (VBuiltin n) = TFunction"
| "class_of VObjectPrototype = TObject"
| "class_of (VArray a) = TArray"
| "class_of (VOther a) = TOther"
| "class_of (VObject a inh ps) = TObject"

definition isType :: "jsval \<Rightarrow> tag \<Rightarrow> bool" where
  "isType obj t = (class_of obj = t)"

definition isUndefined :: "jsval \<Rightarrow> bool" where
  "isUndefined obj = (obj = VUndefined)"

definition isNull :: "jsval \<Rightarrow> bool" where
  "isNull obj = (obj = VNull)"

definition isFunction :: "jsval \<Rightarrow> bool" where
  "isFunction obj = isType obj TFunction"

definition isObject :: "jsval \<Rightarrow> bool" where
  "isObject obj = isType obj TObject"

text \<open>
  \<^verbatim>\<open>a === b\<close>: NaN equal to nothing, plain objects by address, every other value
  by its value or address.
\<close>

definition strict_eq :: "jsval \<Rightarrow> jsval \<Rightarrow> bool" where
  "strict_eq a b =
     (case a of
        VNaN \<Rightarrow> False
      | VObject x inh ps \<Rightarrow> (case b of VObject y inh' qs \<Rightarrow> x = y | _ \<Rightarrow> False)
      | _ \<Rightarrow> a = b)"

text \<open>The truth value of a condition \<^verbatim>\<open>if (v)\<close>.\<close>

fun truthy :: "jsval \<Rightarrow> bool" where
  "truthy VUndefined = False"
| "truthy VNull = False"
| "truthy (VBoolean b) = b"
| "truthy (VNumber n) = (n \<noteq> 0)"
| "truthy VNaN = False"
| "truthy (VString s) = (s \<noteq> [])"
| "truthy _ = True"

section \<open>Objects as property lists\<close>

text \<open>
  An object is the list of its own properties in insertion order. A read that finds no
  own property goes on to the prototype: for an object that inherits from
  \<^verbatim>\<open>Object.prototype\<close> the names below give that prototype's functions and
  \<^verbatim>\<open>__proto__\<close> gives the prototype itself; anything else reads as
  \<^verbatim>\<open>undefined\<close>.
\<close>

definition object_prototype_functions :: "string list" where
  "object_prototype_functions =
     [''constructor'', ''__defineGetter__'', ''__defineSetter__'', ''hasOwnProperty'',
      ''__lookupGetter__'', ''__lookupSetter__'', ''isPrototypeOf'', ''propertyIsEnumerable'',
      ''toString'', ''valueOf'', ''toLocaleString'']"

definition inherited :: "string \<Rightarrow> jsval" where
  "inherited k =
     (if k = ''__proto__'' then VObjectPrototype
      else if k \<in> set object_prototype_functions then VBuiltin k
      else VUndefined)"

definition lookup :: "proto \<Rightarrow> props \<Rightarrow> string \<Rightarrow> jsval" where
  "lookup inh ps k =
     (case map_of ps k of
        Some v \<Rightarrow> v
      | None \<Rightarrow> (case inh of FromObject \<Rightarrow> inherited k | FromNull \<Rightarrow> VUndefined))"

text \<open>
  The store's own objects (\<^verbatim>\<open>state\<close>, \<^verbatim>\<open>nextStateChanges\<close>,
  \<^verbatim>\<open>stateApplierFunctionMap\<close>) are created by \<^verbatim>\<open>{}\<close>. Writing an existing key
  keeps its place, writing a new one appends it, \<^verbatim>\<open>delete\<close> removes the own entry.
  Writing \<^verbatim>\<open>__proto__\<close> runs the inherited setter and creates no property: it
  does nothing for a primitive value and for \<^verbatim>\<open>Object.prototype\<close> itself; for
  another object or null it would replace the prototype, which the model does not follow
  (well-formed calls never do it).
\<close>

definition get_prop :: "props \<Rightarrow> string \<Rightarrow> jsval" where
  "get_prop ps k = lookup FromObject ps k"

definition set_prop :: "props \<Rightarrow> string \<Rightarrow> jsval \<Rightarrow> props" where
  "set_prop ps k v = (if k = ''__proto__'' then ps else AList.update k v ps)"

definition delete_prop :: "props \<Rightarrow> string \<Rightarrow> props" where
  "delete_prop ps k = AList.delete k ps"

fun props_of :: "jsval \<Rightarrow> props" where
  "props_of (VObject a inh ps) = ps"
| "props_of _ = []"

fun proto_of :: "jsval \<Rightarrow> proto" where
  "proto_of (VObject a inh ps) = inh"
| "proto_of _ = FromObject"



text \<open>
  \<^verbatim>\<open>for (let x in list)\<close> visits the keys that are array indices (canonical decimal
  numerals below \<open>2^32 - 1\<close>) in ascending numeric order, then every other key in
  insertion order.
\<close>

definition is_digit :: "char \<Rightarrow> bool" where
  "is_digit c = (c \<in> set ''0123456789'')"

definition dec_val :: "string \<Rightarrow> nat" where
  "dec_val k = foldl (\<lambda>a c. 10 * a + (of_char c - 48)) 0 k"

definition is_array_index :: "string \<Rightarrow> bool" where
  "is_array_index k =
     (k \<noteq> [] \<and> list_all is_digit k \<and> (if hd k = CHR ''0'' then k = ''0'' else True)
      \<and> dec_val k < 2 ^ 32 - 1)"

definition for_in_order :: "(string \<times> 'v) list \<Rightarrow> (string \<times> 'v) list" where
  "for_in_order ps =
     sort_key (dec_val \<circ> fst) (filter (is_array_index \<circ> fst) ps)
     @ filter (Not \<circ> is_array_index \<circ> fst) ps"

section \<open>The store, the host and the environment\<close>

record AppState =
  stateApplierFunctionMap :: props
  changeVerifierMap :: props
  state :: props
  nextStateChanges :: props
  applierTimeout :: "nat option"

text \<open>
  The host keeps the timeouts that were set and have neither fired nor been cleared, the
  next handle \<^verbatim>\<open>setTimeout\<close> gives out, the handler calls made so far as
  (member, handler, newValue, oldValue), and the number of flush callbacks it has run.
\<close>

type_synonym call = "string \<times> jsval \<times> jsval \<times> jsval"

record host =
  timers :: "nat list"
  nextTimer :: nat
  calls :: "call list"
  flushes :: nat

text \<open>The calls that code outside the store can make on it.\<close>

datatype method_call =
    AddHandler string jsval
  | RemoveHandler string
  | SetState jsval
  | ApplyState jsval
  | TouchState "string list"

text \<open>
  What the functions of the page do is not the engine's business, so it is a parameter.
  \<open>handler_does env w c\<close> is what the handler called by \<open>c\<close> does when the system is
  \<open>w\<close>: the calls it makes on the store, in order, and whether it then returns
  (\<open>True\<close>) or throws. \<open>own_test env f x\<close> is what the function \<open>f\<close>, found where
  \<^verbatim>\<open>hasOwnProperty\<close> is looked up, answers for the key \<open>x\<close>.
\<close>

datatype completion = Returned bool | Threw

record environment =
  handler_does :: "AppState \<times> host \<Rightarrow> call \<Rightarrow> method_call list \<times> bool"
  own_test :: "jsval \<Rightarrow> string \<Rightarrow> completion"

section \<open>The iteration helper\<close>

text \<open>
  \<^verbatim>\<open>each(list, func)\<close>. Every call in the state engine passes an object (guarded by
  \<^verbatim>\<open>isObject\<close>, or built by the engine) or the \<^verbatim>\<open>arguments\<close> object, so the
  branch modelled is the loop
  \<^verbatim>\<open>
  for (let x in list) if (list.hasOwnProperty(x)) {
      if (func(list[x], x, list.length))
          break;
  }
  \<close>
  The keys to visit are fixed when the loop starts; the object is read again at every
  step, so a key deleted in the meantime is skipped and a value changed in the meantime
  is seen. \<open>test\<close> is the call \<^verbatim>\<open>list.hasOwnProperty(x)\<close>; a throw, of the test or
  of the callback, leaves the loop with the state as it is at that point.
\<close>

fun each_loop :: "('s \<Rightarrow> ('k \<times> 'v) list) \<Rightarrow> ('s \<Rightarrow> 'k \<Rightarrow> completion) \<Rightarrow> 'k list \<Rightarrow> ('v \<Rightarrow> 'k \<Rightarrow> 's \<Rightarrow> completion \<times> 's) \<Rightarrow> 's \<Rightarrow> completion \<times> 's" where
  "each_loop list test [] func s = (Returned False, s)"
| "each_loop list test (x # xs) func s =
     (case map_of (list s) x of
        None \<Rightarrow> each_loop list test xs func s
      | Some v \<Rightarrow>
          (case test s x of
             Threw \<Rightarrow> (Threw, s)
           | Returned own \<Rightarrow>
               if \<not> own then each_loop list test xs func s
               else (case func v x s of
                       (Threw, s') \<Rightarrow> (Threw, s')
                     | (Returned b, s') \<Rightarrow>
                         if b then (Returned False, s') else each_loop list test xs func s')))"

text \<open>
  \<^verbatim>\<open>list.hasOwnProperty(x)\<close> for a key \<open>x\<close> of the object: the built-in function
  answers true; a function put in its place answers as the environment says; anything
  that is not a function cannot be called.
\<close>

definition has_own :: "environment \<Rightarrow> proto \<Rightarrow> props \<Rightarrow> string \<Rightarrow> completion" where
  "has_own env inh ps x =
     (let f = lookup inh ps ''hasOwnProperty''
      in if f = VBuiltin ''hasOwnProperty'' then Returned (map_of ps x \<noteq> None)
         else if isFunction f then own_test env f x
         else Threw)"

definition each :: "environment \<Rightarrow> ('s \<Rightarrow> proto \<times> props) \<Rightarrow> (jsval \<Rightarrow> string \<Rightarrow> 's \<Rightarrow> completion \<times> 's) \<Rightarrow> 's \<Rightarrow> completion \<times> 's" where
  "each env list func s =
     each_loop (\<lambda>s. snd (list s)) (\<lambda>s x. has_own env (fst (list s)) (snd (list s)) x)
       (map fst (for_in_order (snd (list s)))) func s"

text \<open>
  The same loop over entries that nothing changes and whose test always answers true;
  used in proofs only, never in the statement of a claim.
\<close>

fun simple_loop :: "('k \<times> 'v) list \<Rightarrow> ('v \<Rightarrow> 'k \<Rightarrow> 's \<Rightarrow> completion \<times> 's) \<Rightarrow> 's \<Rightarrow> completion \<times> 's" where
  "simple_loop [] func s = (Returned False, s)"
| "simple_loop ((x, v) # rest) func s =
     (case func v x s of
        (Threw, s') \<Rightarrow> (Threw, s')
      | (Returned b, s') \<Rightarrow> if b then (Returned False, s') else simple_loop rest func s')"

section \<open>The methods of the store\<close>

text \<open>What a method hands back: the store itself, \<^verbatim>\<open>undefined\<close>, or an exception.\<close>

datatype ret = RThis | RUndefined | RThrown


definition removeHandler :: "string \<Rightarrow> AppState \<Rightarrow> AppState" where
  "removeHandler name this =
     this\<lparr>stateApplierFunctionMap := delete_prop (stateApplierFunctionMap this) name\<rparr>"

definition addHandler :: "string \<Rightarrow> jsval \<Rightarrow> AppState \<Rightarrow> AppState" where
  "addHandler name func this =
     (if isFunction func then
        this\<lparr>stateApplierFunctionMap := set_prop (stateApplierFunctionMap this) name func\<rparr>
      else if isNull func \<or> isUndefined func then removeHandler name this
      else this)"

definition new_store :: AppState where
  "new_store = \<lparr>stateApplierFunctionMap = [], changeVerifierMap = [], state = [],
     nextStateChanges = [], applierTimeout = None\<rparr>"


definition setState :: "environment \<Rightarrow> jsval \<Rightarrow> AppState \<Rightarrow> ret \<times> AppState" where
  "setState env nextState this =
     (if \<not> isObject nextState then (RUndefined, this)
      else (case each env (\<lambda>s. (proto_of nextState, props_of nextState))
                   (\<lambda>value key s. (Returned False, s\<lparr>state := set_prop (state s) key value\<rparr>))
                   this of
              (Threw, this') \<Rightarrow> (RThrown, this')
            | (Returned b, this') \<Rightarrow> (RThis, this')))"

definition setTimeout :: "host \<Rightarrow> nat \<times> host" where
  "setTimeout h = (nextTimer h, h\<lparr>timers := timers h @ [nextTimer h], nextTimer := Suc (nextTimer h)\<rparr>)"

definition clearTimeout :: "nat \<Rightarrow> host \<Rightarrow> host" where
  "clearTimeout t h = h\<lparr>timers := removeAll t (timers h)\<rparr>"

text \<open>
  \<^verbatim>\<open>_STATETIMEOUTAPPLY\<close>, always applied to a store: clear the timeout on record,
  set a new one. The callback itself runs when the host fires the timeout.
\<close>

definition STATETIMEOUTAPPLY :: "AppState \<times> host \<Rightarrow> AppState \<times> host" where
  "STATETIMEOUTAPPLY w =
     (case w of (this, h) \<Rightarrow>
        let (this1, h1) = (case applierTimeout this of
                             Some t \<Rightarrow> (this\<lparr>applierTimeout := None\<rparr>, clearTimeout t h)
                           | None \<Rightarrow> (this, h));
            (t', h2) = setTimeout h1
        in (this1\<lparr>applierTimeout := Some t'\<rparr>, h2))"

definition applyState :: "environment \<Rightarrow> jsval \<Rightarrow> AppState \<times> host \<Rightarrow> ret \<times> (AppState \<times> host)" where
  "applyState env nextState w =
     (case w of (this, h) \<Rightarrow>
        if \<not> isObject nextState then (RUndefined, (this, h))
        else (case each env (\<lambda>s. (proto_of nextState, props_of nextState))
                     (\<lambda>value key s. (Returned False,
                        if \<not> strict_eq (get_prop (state s) key) value
                        then s\<lparr>nextStateChanges := set_prop (nextStateChanges s) key value\<rparr>
                        else s))
                     this of
                (Threw, this') \<Rightarrow> (RThrown, (this', h))
              | (Returned b, this') \<Rightarrow> (RThis, STATETIMEOUTAPPLY (this', h))))"

text \<open>
  \<^verbatim>\<open>touchState(memberName...)\<close>: the \<^verbatim>\<open>arguments\<close> object holds the names under
  the indices 0, 1, ..., enumerated in ascending order, and its
  \<^verbatim>\<open>hasOwnProperty\<close> is the built-in one.
\<close>

definition touchState :: "string list \<Rightarrow> AppState \<times> host \<Rightarrow> AppState \<times> host" where
  "touchState names w =
     (case w of (this, h) \<Rightarrow>
        STATETIMEOUTAPPLY
          (snd (each_loop (\<lambda>s. zip [0..<length names] names) (\<lambda>s i. Returned True)
                  [0..<length names]
                  (\<lambda>memberName i s. (Returned False,
                     if truthy (get_prop (stateApplierFunctionMap s) memberName)
                     then s\<lparr>nextStateChanges :=
                              set_prop (nextStateChanges s) memberName (get_prop (state s) memberName)\<rparr>
                     else s))
                  this), h))"

section \<open>Handlers and the flush\<close>

text \<open>A method call made from outside the store; what it returns is the caller's business.\<close>

fun call_method :: "environment \<Rightarrow> method_call \<Rightarrow> AppState \<times> host \<Rightarrow> AppState \<times> host" where
  "call_method env (AddHandler name func) (this, h) = (addHandler name func this, h)"
| "call_method env (RemoveHandler name) (this, h) = (removeHandler name this, h)"
| "call_method env (SetState nextState) (this, h) = (snd (setState env nextState this), h)"
| "call_method env (ApplyState nextState) (this, h) = snd (applyState env nextState (this, h))"
| "call_method env (TouchState names) (this, h) = touchState names (this, h)"

text \<open>
  Calling the handler: a value that is not a function cannot be called; a function runs,
  makes its calls on the store and returns or throws.
\<close>

definition invoke :: "environment \<Rightarrow> call \<Rightarrow> AppState \<times> host \<Rightarrow> completion \<times> (AppState \<times> host)" where
  "invoke env c w =
     (case w of (this, h) \<Rightarrow>
        if isFunction (fst (snd c)) then
          (if snd (handler_does env (this, h\<lparr>calls := calls h @ [c]\<rparr>) c)
           then Returned False else Threw,
           fold (call_method env) (fst (handler_does env (this, h\<lparr>calls := calls h @ [c]\<rparr>) c))
             (this, h\<lparr>calls := calls h @ [c]\<rparr>))
        else (Threw, (this, h)))"

text \<open>The body of the loop inside the timeout callback of \<^verbatim>\<open>_STATETIMEOUTAPPLY\<close>.\<close>

definition flush_member :: "environment \<Rightarrow> jsval \<Rightarrow> string \<Rightarrow> AppState \<times> host \<Rightarrow> completion \<times> (AppState \<times> host)" where
  "flush_member env value key w =
     (case w of (this, h) \<Rightarrow>
        if truthy (get_prop (stateApplierFunctionMap this) key) then
          (case invoke env (key, get_prop (stateApplierFunctionMap this) key, value,
                            get_prop (state this) key) (this, h) of
             (Threw, w') \<Rightarrow> (Threw, w')
           | (Returned b, (this', h')) \<Rightarrow>
               (Returned False, (this'\<lparr>state := set_prop (state this') key value\<rparr>, h')))
        else (Returned False, (this, h)))"

definition timeout_callback :: "environment \<Rightarrow> AppState \<times> host \<Rightarrow> completion \<times> (AppState \<times> host)" where
  "timeout_callback env w =
     (case each env (\<lambda>w. (FromObject, nextStateChanges (fst w))) (flush_member env) w of
        (Threw, w') \<Rightarrow> (Threw, w')
      | (Returned b, (this, h)) \<Rightarrow> (Returned False, (this\<lparr>nextStateChanges := []\<rparr>, h)))"

text \<open>The host fires the timeout \<open>t\<close>, if it is outstanding.\<close>

definition fire :: "environment \<Rightarrow> nat \<Rightarrow> AppState \<times> host \<Rightarrow> completion \<times> (AppState \<times> host)" where
  "fire env t w =
     (case w of (this, h) \<Rightarrow>
        if t \<in> set (timers h) then
          timeout_callback env
            (this, h\<lparr>timers := removeAll t (timers h), flushes := Suc (flushes h)\<rparr>)
        else (Returned False, (this, h)))"

section \<open>Runs of the system\<close>

datatype action = Call method_call | Fire nat

fun step :: "environment \<Rightarrow> action \<Rightarrow> AppState \<times> host \<Rightarrow> AppState \<times> host" where
  "step env (Call m) w = call_method env m w"
| "step env (Fire t) w = snd (fire env t w)"







section \<open>Environments used in the examples\<close>






section \<open>The form binder's select handler\<close>

record option_elem =
  opt_value :: string
  opt_label :: string
  opt_selected :: bool

record select_elem =
  attr_name :: "string option"
  attr_multiple :: "string option"
  options :: "option_elem list"

datatype fieldval = Single string | Multi "string list"

text \<open>\<^verbatim>\<open>element.value\<close> of a select: the value of its first selected option, else empty.\<close>

definition select_value :: "select_elem \<Rightarrow> string" where
  "select_value element =
     (case filter opt_selected (options element) of [] \<Rightarrow> [] | opt # rest \<Rightarrow> opt_value opt)"

text \<open>
  \<^verbatim>\<open>SELECTEVENT\<close>, with the state object and the names passed to the change function
  (when there is one) as the state.
\<close>

definition SELECTEVENT :: "bool \<Rightarrow> select_elem \<Rightarrow> (string \<times> fieldval) list \<times> string list \<Rightarrow> (string \<times> fieldval) list \<times> string list" where
  "SELECTEVENT changeFunction element w =
     (case w of (st, notified) \<Rightarrow>
        (case attr_name element of
           None \<Rightarrow> (st, notified)
         | Some memberName \<Rightarrow>
             if memberName = [] then (st, notified)
             else
               let multi = (case attr_multiple element of None \<Rightarrow> False | Some m \<Rightarrow> m \<noteq> []);
                   st' = (if multi
                          then AList.update memberName
                                 (Multi (map opt_value (filter opt_selected (options element)))) st
                          else AList.update memberName (Single (select_value element)) st)
               in (st', if changeFunction then notified @ [memberName] else notified)))"

section \<open>Auxiliary facts\<close>

subsection \<open>Lists, maps and the enumeration order\<close>

lemma set_for_in_order: "set (for_in_order ps) = set ps"
  by (auto simp: for_in_order_def)

lemma mset_for_in_order: "mset (for_in_order ps) = mset ps"
  by (simp add: for_in_order_def comp_def)

lemma distinct_for_in_order: "distinct (map fst (for_in_order ps)) = distinct (map fst ps)"
proof -
  have "mset (map fst (for_in_order ps)) = mset (map fst ps)"
    using mset_for_in_order [of ps] by (metis mset_map)
  then show ?thesis by (rule mset_eq_imp_distinct_iff)
qed










lemma no_proto_key:
  "map_of ps ''__proto__'' = None \<Longrightarrow> \<forall>(k, v) \<in> set ps. k \<noteq> ''__proto__''"
  by (auto simp: map_of_eq_None_iff image_iff)

subsection \<open>Values\<close>


lemma props_of_not_object: "\<not> isObject x \<Longrightarrow> props_of x = []"
  by (cases x) (simp_all add: isObject_def isType_def)

lemma get_prop_update_other: "k' \<noteq> k \<Longrightarrow> get_prop (AList.update k v st) k' = get_prop st k'"
  by (simp add: get_prop_def lookup_def update_conv')

lemma get_prop_update_same: "get_prop (AList.update k v st) k = v"
  by (simp add: get_prop_def lookup_def update_conv')

lemma get_prop_own: "map_of ps k = Some v \<Longrightarrow> get_prop ps k = v"
  by (simp add: get_prop_def lookup_def)


subsection \<open>The loop\<close>



lemma each_simple:
  assumes "distinct (map fst ps)"
      and "lookup inh ps ''hasOwnProperty'' = VBuiltin ''hasOwnProperty''"
      and "list s = (inh, ps)"
      and "\<And>v x s. list s = (inh, ps) \<Longrightarrow> list (snd (func v x s)) = (inh, ps)"
  shows "each env list func s = simple_loop (for_in_order ps) func s"
proof -
  let ?list = "\<lambda>s. snd (list s)"
  let ?test = "\<lambda>s x. has_own env (fst (list s)) (snd (list s)) x"
  have step: "each_loop ?list ?test (map fst es) func s' = simple_loop es func s'"
    if "set es \<subseteq> set ps" "list s' = (inh, ps)" for es s'
    using that
  proof (induction es arbitrary: s')
    case Nil
    then show ?case by simp
  next
    case (Cons e es)
    obtain x v where e: "e = (x, v)" by (cases e)
    from Cons.prems e have mem: "(x, v) \<in> set ps" and sub: "set es \<subseteq> set ps" by auto
    from mem assms(1) have m: "map_of (snd (list s')) x = Some v"
      by (simp add: Cons.prems(2))
    then have t: "has_own env (fst (list s')) (snd (list s')) x = Returned True"
      using assms(2) by (simp add: has_own_def Cons.prems(2))
    obtain c s'' where f: "func v x s' = (c, s'')" by (metis surj_pair)
    from assms(4) [OF Cons.prems(2), of v x] f have l': "list s'' = (inh, ps)" by simp
    show ?case
    proof (cases c)
      case Threw
      then show ?thesis by (simp add: e m t f)
    next
      case (Returned b)
      show ?thesis
      proof (cases b)
        case True
        then show ?thesis by (simp add: e m t f Returned)
      next
        case False
        then show ?thesis
          using Cons.IH [OF sub l'] by (simp add: e m t f Returned)
      qed
    qed
  qed
  have "set (for_in_order ps) \<subseteq> set ps" by (simp add: set_for_in_order)
  from step [OF this assms(3)] show ?thesis
    by (simp add: each_def assms(3))
qed



subsection \<open>The methods on mappings the loop runs through\<close>











lemma applyState_not_object:
  "\<not> isObject x \<Longrightarrow> applyState env x (this, h) = (RUndefined, (this, h))"
  by (simp add: applyState_def)







subsection \<open>What a method call leaves alone\<close>



subsection \<open>The flush loop, whatever the handlers do\<close>






lemma timeout_callback_returned:
  "timeout_callback env w = (Returned b, (this', h')) \<Longrightarrow> nextStateChanges this' = []"
  by (auto simp: timeout_callback_def split: completion.splits prod.splits)



subsection \<open>The flush loop when no handler calls back into the store\<close>

lemma flush_member_no_handler:
  "\<not> truthy (get_prop (stateApplierFunctionMap this) k) \<Longrightarrow>
   flush_member env v k (this, h) = (Returned False, (this, h))"
  by (simp add: flush_member_def)

lemma flush_member_handler:
  assumes "\<And>w c. fst (handler_does env w c) = []"
      and "truthy (get_prop (stateApplierFunctionMap this) k)"
      and "flush_member env v k (this, h) = (c, (this', h'))"
  shows "(c = Threw \<and> this' = this
      \<and> (h' = h \<or> h' = h\<lparr>calls := calls h @
              [(k, get_prop (stateApplierFunctionMap this) k, v, get_prop (state this) k)]\<rparr>))
   \<or> (c = Returned False \<and> this' = this\<lparr>state := set_prop (state this) k v\<rparr>
      \<and> h' = h\<lparr>calls := calls h @
              [(k, get_prop (stateApplierFunctionMap this) k, v, get_prop (state this) k)]\<rparr>)"
  using assms(2,3)
  by (auto simp: flush_member_def invoke_def assms(1) split: if_splits)

lemma flush_member_keeps_buffer:
  assumes "\<And>w c. fst (handler_does env w c) = []"
  shows "nextStateChanges (fst (snd (flush_member env v k w))) = nextStateChanges (fst w)"
proof -
  obtain this h where w: "w = (this, h)" by (cases w)
  obtain c this' h' where f: "flush_member env v k (this, h) = (c, (this', h'))"
    by (metis surj_pair)
  show ?thesis
  proof (cases "truthy (get_prop (stateApplierFunctionMap this) k)")
    case True
    from flush_member_handler [OF assms True f] show ?thesis by (auto simp: w f)
  next
    case False
    then show ?thesis by (simp add: w flush_member_no_handler)
  qed
qed

lemma flush_loop:
  assumes "\<And>w c. fst (handler_does env w c) = []"
  shows "distinct (map fst xs) \<Longrightarrow> \<forall>(k, v) \<in> set xs. k \<noteq> ''__proto__'' \<Longrightarrow>
   simple_loop xs (flush_member env) (this, h) = (c, (this', h')) \<Longrightarrow>
   \<exists>n m. this' = this\<lparr>state := fold (\<lambda>(k, v). AList.update k v)
                 (take n (filter (\<lambda>(k, v). truthy (get_prop (stateApplierFunctionMap this) k)) xs))
                 (state this)\<rparr>
        \<and> h' = h\<lparr>calls := calls h @
                 map (\<lambda>(k, v). (k, get_prop (stateApplierFunctionMap this) k, v, get_prop (state this) k))
                   (take m (filter (\<lambda>(k, v). truthy (get_prop (stateApplierFunctionMap this) k)) xs))\<rparr>
        \<and> (c \<noteq> Threw \<longrightarrow>
              length (filter (\<lambda>(k, v). truthy (get_prop (stateApplierFunctionMap this) k)) xs) \<le> n
              \<and> length (filter (\<lambda>(k, v). truthy (get_prop (stateApplierFunctionMap this) k)) xs) \<le> m)"
proof (induction xs arbitrary: this h)
  case Nil
  then have "this' = this" "h' = h" "c = Returned False" by auto
  then show ?case by simp
next
  case (Cons p xs)
  obtain k v where p: "p = (k, v)" by (cases p)
  from Cons.prems(1) p have d: "distinct (map fst xs)" and fresh: "\<forall>(k', v') \<in> set xs. k' \<noteq> k"
    by (auto simp: image_iff)
  from Cons.prems(2) p have kp: "k \<noteq> ''__proto__''" and np: "\<forall>(k, v) \<in> set xs. k \<noteq> ''__proto__''"
    by auto
  let ?reg = "stateApplierFunctionMap this"
  let ?has = "\<lambda>(k, v). truthy (get_prop ?reg k)"
  let ?mk = "\<lambda>st (k, v). (k, get_prop ?reg k, v, get_prop st k)"
  show ?case
  proof (cases "truthy (get_prop ?reg k)")
    case False
    then have "simple_loop xs (flush_member env) (this, h) = (c, (this', h'))"
      using Cons.prems(3) by (simp add: p flush_member_no_handler)
    from Cons.IH [OF d np this] False show ?thesis by (simp add: p)
  next
    case True
    obtain c1 this1 h1 where fm: "flush_member env v k (this, h) = (c1, (this1, h1))"
      by (metis surj_pair)
    from flush_member_handler [OF assms True fm] kp
    consider (threw0) "c1 = Threw" "this1 = this" "h1 = h"
      | (threw1) "c1 = Threw" "this1 = this" "h1 = h\<lparr>calls := calls h @ [?mk (state this) (k, v)]\<rparr>"
      | (ok) "c1 = Returned False" "this1 = this\<lparr>state := AList.update k v (state this)\<rparr>"
             "h1 = h\<lparr>calls := calls h @ [?mk (state this) (k, v)]\<rparr>"
      by (auto simp: set_prop_def)
    then show ?thesis
    proof cases
      case threw0
      with Cons.prems(3) fm have "c = Threw" "this' = this" "h' = h" by (auto simp: p)
      then show ?thesis
        by (intro exI [of _ 0]) simp
    next
      case threw1
      with Cons.prems(3) fm have "c = Threw" "this' = this"
        "h' = h\<lparr>calls := calls h @ [?mk (state this) (k, v)]\<rparr>" by (auto simp: p)
      then show ?thesis using True
        by (intro exI [of _ 0] exI [of _ 1]) (simp add: p)
    next
      case ok
      with Cons.prems(3) fm have rest: "simple_loop xs (flush_member env) (this1, h1) = (c, (this', h'))"
        by (simp add: p)
      have reg1: "stateApplierFunctionMap this1 = ?reg" using ok by simp
      from Cons.IH [OF d np rest] obtain n m where
        s': "this' = this1\<lparr>state := fold (\<lambda>(k, v). AList.update k v) (take n (filter ?has xs)) (state this1)\<rparr>"
        and h': "h' = h1\<lparr>calls := calls h1 @ map (?mk (state this1)) (take m (filter ?has xs))\<rparr>"
        and fin: "c \<noteq> Threw \<longrightarrow> length (filter ?has xs) \<le> n \<and> length (filter ?has xs) \<le> m"
        unfolding reg1 by blast
      have "\<forall>(k', v') \<in> set (take m (filter ?has xs)). k' \<noteq> k"
        using fresh by (auto dest!: in_set_takeD)
      then have mk_eq: "map (?mk (state this1)) (take m (filter ?has xs))
                        = map (?mk (state this)) (take m (filter ?has xs))"
        using ok(2) by (auto simp: get_prop_update_other)
      show ?thesis
        using s' h' fin True ok mk_eq
        by (intro exI [of _ "Suc n"] exI [of _ "Suc m"]) (simp add: p)
    qed
  qed
qed

lemma flush_each_simple:
  assumes "\<And>w c. fst (handler_does env w c) = []"
      and "distinct (map fst (nextStateChanges this))"
      and "get_prop (nextStateChanges this) ''hasOwnProperty'' = VBuiltin ''hasOwnProperty''"
  shows "each env (\<lambda>w. (FromObject, nextStateChanges (fst w))) (flush_member env) (this, h)
           = simple_loop (for_in_order (nextStateChanges this)) (flush_member env) (this, h)"
proof (rule each_simple [OF assms(2)])
  show "lookup FromObject (nextStateChanges this) ''hasOwnProperty'' = VBuiltin ''hasOwnProperty''"
    using assms(3) by (simp add: get_prop_def)
  show "(FromObject, nextStateChanges (fst (this, h))) = (FromObject, nextStateChanges this)"
    by simp
  show "(FromObject, nextStateChanges (fst (snd (flush_member env v x s))))
          = (FromObject, nextStateChanges this)"
    if "(FromObject, nextStateChanges (fst s)) = (FromObject, nextStateChanges this)" for v x s
    using that by (simp add: flush_member_keeps_buffer [OF assms(1)])
qed

lemma timeout_callback_calls:
  assumes "\<And>w c. fst (handler_does env w c) = []"
      and "distinct (map fst (nextStateChanges this))"
      and "map_of (nextStateChanges this) ''__proto__'' = None"
      and "get_prop (nextStateChanges this) ''hasOwnProperty'' = VBuiltin ''hasOwnProperty''"
      and "timeout_callback env (this, h) = (c, (this', h'))"
  shows "\<exists>m. calls h' = calls h @
            map (\<lambda>(k, v). (k, get_prop (stateApplierFunctionMap this) k, v, get_prop (state this) k))
              (take m (filter (\<lambda>(k, v). truthy (get_prop (stateApplierFunctionMap this) k))
                         (for_in_order (nextStateChanges this))))"
proof -
  obtain c1 this1 h1 where e: "simple_loop (for_in_order (nextStateChanges this)) (flush_member env) (this, h) = (c1, (this1, h1))"
    by (metis surj_pair)
  have d: "distinct (map fst (for_in_order (nextStateChanges this)))"
    using assms(2) by (simp add: distinct_for_in_order)
  have np: "\<forall>(k, v) \<in> set (for_in_order (nextStateChanges this)). k \<noteq> ''__proto__''"
    using no_proto_key [OF assms(3)] by (simp add: set_for_in_order)
  from flush_loop [OF assms(1) d np e] obtain m where
    "h1 = h\<lparr>calls := calls h @
            map (\<lambda>(k, v). (k, get_prop (stateApplierFunctionMap this) k, v, get_prop (state this) k))
              (take m (filter (\<lambda>(k, v). truthy (get_prop (stateApplierFunctionMap this) k))
                         (for_in_order (nextStateChanges this))))\<rparr>"
    by blast
  moreover have "calls h' = calls h1"
    using assms(5) e
    by (auto simp: timeout_callback_def flush_each_simple [OF assms(1,2,4)] split: completion.splits)
  ultimately show ?thesis by auto
qed


subsection \<open>Runs of applyState and the firing of a timeout\<close>



subsection \<open>Scheduling\<close>




















section \<open>Construction, registration and direct writes\<close>

text \<open>
  Claim C10. \<^verbatim>\<open>addHandler(name, v)\<close> with a value that is neither a function nor
  null nor undefined (a string, a number, ...) changes nothing: the registry, and with it
  any handler already registered for \<open>name\<close>, stays as it was.
\<close>

theorem addHandler_other_value_unchanged:
  "\<not> isFunction v \<Longrightarrow> \<not> isNull v \<Longrightarrow> \<not> isUndefined v \<Longrightarrow> addHandler name v this = this"
  by (simp add: addHandler_def)

theorem addHandler_other_value_unchanged_witness:
  "\<not> isFunction (VString ''x'') \<and> \<not> isNull (VString ''x'') \<and> \<not> isUndefined (VString ''x'')
   \<and> addHandler ''a'' (VString ''x'') (new_store\<lparr>stateApplierFunctionMap := [(''a'', VFunction 1)]\<rparr>)
       = new_store\<lparr>stateApplierFunctionMap := [(''a'', VFunction 1)]\<rparr>
   \<and> get_prop (stateApplierFunctionMap
        (addHandler ''a'' (VString ''x'') (new_store\<lparr>stateApplierFunctionMap := [(''a'', VFunction 1)]\<rparr>)))
        ''a'' = VFunction 1"
  using addHandler_other_value_unchanged
    [of "VString ''x''" "''a''" "new_store\<lparr>stateApplierFunctionMap := [(''a'', VFunction 1)]\<rparr>"]
  by (simp add: isFunction_def isNull_def isUndefined_def isType_def get_prop_def lookup_def)











section \<open>Staging and flushing\<close>






section \<open>Unchanged values and forced refreshes\<close>







section \<open>One scheduled flush\<close>





section \<open>The select handler of the form binder\<close>

lemma SELECTEVENT_multiple_nonempty:
  assumes "attr_name element = Some memberName" and "memberName \<noteq> []"
      and "attr_multiple element = Some m" and "m \<noteq> []"
  shows "map_of (fst (SELECTEVENT changeFunction element (st, notified))) memberName
           = Some (Multi (map opt_value (filter opt_selected (options element))))"
  using assms by (simp add: SELECTEVENT_def update_conv')

lemma SELECTEVENT_multiple_empty_or_absent:
  assumes "attr_name element = Some memberName" and "memberName \<noteq> []"
      and "attr_multiple element = None \<or> attr_multiple element = Some []"
  shows "map_of (fst (SELECTEVENT changeFunction element (st, notified))) memberName
           = Some (Single (select_value element))"
  using assms by (auto simp: SELECTEVENT_def update_conv')

text \<open>
  Claim C8. A select carrying the bare boolean attribute (\<^verbatim>\<open><select name="field" multiple>\<close>)
  is a multi-select, and \<^verbatim>\<open>getAttribute('multiple')\<close> gives the empty string for it,
  which \<^verbatim>\<open>!!\<close> turns into false. With options x, y, z of which y and z are selected,
  the handler writes the single value of the first selected option instead of the
  sequence of both.
\<close>

theorem SELECTEVENT_bare_multiple_writes_single_value:
  "attr_multiple (\<lparr>attr_name = Some ''field'', attr_multiple = Some [], options = [\<lparr>opt_value = ''x'', opt_label = ''X'', opt_selected = False\<rparr>, \<lparr>opt_value = ''y'', opt_label = ''Y'', opt_selected = True\<rparr>, \<lparr>opt_value = ''z'', opt_label = ''Z'', opt_selected = True\<rparr>]\<rparr>) \<noteq> None
   \<and> SELECTEVENT False (\<lparr>attr_name = Some ''field'', attr_multiple = Some [], options = [\<lparr>opt_value = ''x'', opt_label = ''X'', opt_selected = False\<rparr>, \<lparr>opt_value = ''y'', opt_label = ''Y'', opt_selected = True\<rparr>, \<lparr>opt_value = ''z'', opt_label = ''Z'', opt_selected = True\<rparr>]\<rparr>) ([], [])
       = ([(''field'', Single ''y'')], [])
   \<and> map_of (fst (SELECTEVENT False (\<lparr>attr_name = Some ''field'', attr_multiple = Some [], options = [\<lparr>opt_value = ''x'', opt_label = ''X'', opt_selected = False\<rparr>, \<lparr>opt_value = ''y'', opt_label = ''Y'', opt_selected = True\<rparr>, \<lparr>opt_value = ''z'', opt_label = ''Z'', opt_selected = True\<rparr>]\<rparr>) ([], []))) ''field'' \<noteq> Some (Multi [''y'', ''z''])"
  by (simp add: SELECTEVENT_def select_value_def)


end
